theory Spec2Isabelle
  imports Complex_Main
begin

section \<open>The alert store (contexts/AlertContext.js)\<close>

text \<open>
  An alert is a plain JavaScript object. The fields \<open>id\<close>, \<open>timestamp\<close> and \<open>read\<close> are
  always present in a stored alert; the other fields come from the candidate passed to
  \<open>addAlert\<close> and are \<open>None\<close> where the candidate has no such key (JavaScript
  \<open>undefined\<close>). Timestamps are ISO-8601 strings in the source, written by
  \<open>toISOString()\<close> and read back by \<open>new Date(...)\<close>; they are represented by their
  epoch milliseconds. Identifiers are JavaScript numbers, taken as reals; the sum
  \<open>Date.now() + Math.random()\<close> is formed without rounding.
\<close>

record alert =
  alert_id :: real
  timestamp :: int
  read :: bool
  alert_type :: "string option"
  title :: "string option"
  content :: "string option"
  severity :: "string option"
  riskLevel :: "string option"
  details :: "(string \<times> string) list option"

text \<open>
  The candidate (\<open>action.payload\<close> of \<open>ADD_ALERT\<close>): any key may be absent, and nothing
  stops a caller from supplying \<open>id\<close>, \<open>timestamp\<close> or \<open>read\<close> as well.
\<close>

record payload =
  p_id :: "real option"
  p_timestamp :: "int option"
  p_read :: "bool option"
  p_type :: "string option"
  p_title :: "string option"
  p_content :: "string option"
  p_severity :: "string option"
  p_riskLevel :: "string option"
  p_details :: "(string \<times> string) list option"

record state =
  alerts :: "alert list"
  unreadCount :: int

datatype action =
    ADD_ALERT payload
  | REMOVE_ALERT real
  | CLEAR_ALERTS
  | MARK_AS_READ real
  | OTHER_ACTION

text \<open>
  What the reducer reads from its environment while it runs: the clock (\<open>Date.now()\<close>,
  \<open>new Date()\<close>; one reading per run, in milliseconds) and \<open>Math.random()\<close>.
\<close>

record env =
  now :: int
  random :: real

text \<open>
  \<open>{ id: Date.now() + Math.random(), timestamp: new Date().toISOString(), read: false,
  ...action.payload }\<close>: the spread comes last, so a key of the candidate overrides the
  default written before it.
\<close>

definition newAlert :: "env \<Rightarrow> payload \<Rightarrow> alert" where
  "newAlert e p =
     \<lparr> alert_id = (case p_id p of Some i \<Rightarrow> i | None \<Rightarrow> real_of_int (now e) + random e),
       timestamp = (case p_timestamp p of Some t \<Rightarrow> t | None \<Rightarrow> now e),
       read = (case p_read p of Some r \<Rightarrow> r | None \<Rightarrow> False),
       alert_type = p_type p,
       title = p_title p,
       content = p_content p,
       severity = p_severity p,
       riskLevel = p_riskLevel p,
       details = p_details p \<rparr>"

text \<open>The predicate of the duplicate search in the \<open>ADD_ALERT\<close> case.\<close>

definition isDuplicateOf :: "env \<Rightarrow> alert \<Rightarrow> alert \<Rightarrow> bool" where
  "isDuplicateOf e n a \<longleftrightarrow>
     content a = content n \<and> alert_type a = alert_type n \<and> timestamp a > now e - 60000"

definition existingAlert :: "env \<Rightarrow> state \<Rightarrow> alert \<Rightarrow> alert option" where
  "existingAlert e s n = find (isDuplicateOf e n) (alerts s)"

fun alertReducer :: "env \<Rightarrow> state \<Rightarrow> action \<Rightarrow> state" where
  "alertReducer e s (ADD_ALERT p) =
     (let n = newAlert e p in
      case existingAlert e s n of
        Some _ \<Rightarrow> s
      | None \<Rightarrow>
          (let updatedAlerts = take 100 (n # alerts s)
           in s\<lparr>alerts := updatedAlerts, unreadCount := unreadCount s + 1\<rparr>))"
| "alertReducer e s (REMOVE_ALERT i) =
     (let filteredAlerts = filter (\<lambda>a. alert_id a \<noteq> i) (alerts s);
          removedAlert = find (\<lambda>a. alert_id a = i) (alerts s)
      in s\<lparr>alerts := filteredAlerts,
            unreadCount := (case removedAlert of
                              Some r \<Rightarrow> if \<not> read r then unreadCount s - 1 else unreadCount s
                            | None \<Rightarrow> unreadCount s)\<rparr>)"
| "alertReducer e s CLEAR_ALERTS = s\<lparr>alerts := [], unreadCount := 0\<rparr>"
| "alertReducer e s (MARK_AS_READ i) =
     (let readAlerts = map (\<lambda>a. if alert_id a = i then a\<lparr>read := True\<rparr> else a) (alerts s);
          wasUnread = find (\<lambda>a. alert_id a = i \<and> \<not> read a) (alerts s)
      in s\<lparr>alerts := readAlerts,
            unreadCount := (case wasUnread of
                              Some _ \<Rightarrow> unreadCount s - 1
                            | None \<Rightarrow> unreadCount s)\<rparr>)"
| "alertReducer e s OTHER_ACTION = s"

text \<open>
  A run of the store: the dispatched actions in order, each with the environment the
  reducer saw when it handled that action.
\<close>

fun dispatchAll :: "state \<Rightarrow> (env \<times> action) list \<Rightarrow> state" where
  "dispatchAll s [] = s"
| "dispatchAll s ((e, a) # rest) = dispatchAll (alertReducer e s a) rest"

subsection \<open>The candidate builders\<close>


definition createSecurityAlert ::
  "string \<Rightarrow> string \<Rightarrow> string \<Rightarrow> (string \<times> string) list \<Rightarrow> payload" where
  "createSecurityAlert t c sev d =
     \<lparr> p_id = None, p_timestamp = None, p_read = None,
       p_type = Some ''security_warning'',
       p_title = Some t,
       p_content = Some c,
       p_severity = Some sev,
       p_riskLevel = None,
       p_details = Some d \<rparr>"

definition createSystemAlert ::
  "string \<Rightarrow> string \<Rightarrow> string \<Rightarrow> (string \<times> string) list \<Rightarrow> payload" where
  "createSystemAlert t c ty d =
     \<lparr> p_id = None, p_timestamp = None, p_read = None,
       p_type = Some ''system_notification'',
       p_title = Some t,
       p_content = Some c,
       p_severity = Some ty,
       p_riskLevel = None,
       p_details = Some d \<rparr>"

subsection \<open>Persistence and start-up\<close>

text \<open>
  The value under the key \<open>phishingAlerts\<close> of \<open>localStorage\<close>: \<open>None\<close> when the key
  is absent, otherwise the alert sequence that \<open>JSON.stringify\<close> wrote. The JSON text
  itself is not modelled: a stored sequence is read back as it was written, and a value
  that \<open>JSON.parse\<close> cannot read is not among the storages considered.
\<close>

type_synonym storage = "alert list option"

definition persist :: "state \<Rightarrow> storage" where
  "persist s = Some (alerts s)"

definition initialState :: "storage \<Rightarrow> state" where
  "initialState st =
     \<lparr> alerts = (case st of Some xs \<Rightarrow> xs | None \<Rightarrow> []),
       unreadCount = 0 \<rparr>"

subsection \<open>The daily clean-up\<close>

text \<open>
  \<open>thirtyDaysAgo.setDate(thirtyDaysAgo.getDate() - 30)\<close> moves the local calendar date
  back by thirty days; with no change of the zone offset in between that is
  \<open>30 * 86400000\<close> milliseconds.
\<close>

definition thirtyDaysAgo :: "env \<Rightarrow> int" where
  "thirtyDaysAgo e = now e - 30 * 86400000"

text \<open>A stored alert passed back as the payload of \<open>ADD_ALERT\<close>: it has every key.\<close>

definition asPayload :: "alert \<Rightarrow> payload" where
  "asPayload a =
     \<lparr> p_id = Some (alert_id a), p_timestamp = Some (timestamp a), p_read = Some (read a),
       p_type = alert_type a, p_title = title a, p_content = content a,
       p_severity = severity a, p_riskLevel = riskLevel a, p_details = details a \<rparr>"

text \<open>
  The callback of the daily interval. Its dispatches are handled one after the other in
  the order they are made, all within the same clock reading.
\<close>

definition cleanup :: "env \<Rightarrow> state \<Rightarrow> state" where
  "cleanup e s =
     (let recentAlerts = filter (\<lambda>a. timestamp a > thirtyDaysAgo e) (alerts s)
      in if length recentAlerts < length (alerts s)
         then dispatchAll s
                ((e, CLEAR_ALERTS) # map (\<lambda>a. (e, ADD_ALERT (asPayload a))) recentAlerts)
         else s)"

section \<open>The notification surface (components/AlertNotification.js)\<close>

text \<open>
  \<open>autoDismiss\<close> and \<open>dismissTimeout\<close> are component state whose setters are never
  called, so they keep their initial values.
\<close>

definition autoDismiss :: bool where
  "autoDismiss = True"

definition dismissTimeout :: int where
  "dismissTimeout = 5000"

text \<open>
  The component state: the visible notifications, and the callbacks registered with
  \<open>setTimeout\<close> that have not run yet, each as the time it is due and the alert id it
  will dismiss.
\<close>

record presenter =
  visibleAlerts :: "alert list"
  timers :: "(int \<times> real) list"

definition newAlerts :: "alert list \<Rightarrow> alert list \<Rightarrow> alert list" where
  "newAlerts als vis =
     filter (\<lambda>a. \<not> read a \<and>
                 find (\<lambda>v. alert_id v = alert_id a) vis = None \<and>
                 (severity a = Some ''critical'' \<or> severity a = Some ''high'' \<or>
                  alert_type a = Some ''phishing_detected'')) als"

text \<open>The first effect of the component, run at time \<open>t\<close> on the store's alerts.\<close>

definition notifyEffect :: "int \<Rightarrow> alert list \<Rightarrow> presenter \<Rightarrow> presenter" where
  "notifyEffect t als pr =
     (let new = newAlerts als (visibleAlerts pr)
      in if length new > 0
         then pr\<lparr>visibleAlerts := visibleAlerts pr @ new,
                 timers := timers pr @
                   (if autoDismiss then map (\<lambda>a. (t + dismissTimeout, alert_id a)) new else [])\<rparr>
         else pr)"

text \<open>
  \<open>dismissNotification\<close> updates the visible list and calls \<open>markAsRead\<close>; the calls it
  makes on the store are returned as the list of actions dispatched.
\<close>

definition dismissNotification :: "real \<Rightarrow> presenter \<Rightarrow> presenter \<times> action list" where
  "dismissNotification i pr =
     (pr\<lparr>visibleAlerts := filter (\<lambda>a. alert_id a \<noteq> i) (visibleAlerts pr)\<rparr>,
      [MARK_AS_READ i])"

section \<open>Store and notification surface together\<close>

text \<open>
  The provider and the component as the runtime drives them. An event is a dispatch to
  the store by any caller, a dismissal by the user, or the passing of time, on which the
  registered callbacks that are due run in the order they were registered.

  \<open>dismissNotification\<close> makes two state updates, one to the visible list and one to
  the store. Whether the runtime applies both before it renders again, or renders after
  the first so that the effect runs in between on the store as it still is, depends on
  how the application is mounted, and the sources do not show that. A dismissal and a
  passing of time therefore carry a flag: \<open>True\<close> when the two updates are applied
  together, \<open>False\<close> when the effect runs between them.

  The effect promotes nothing when neither list has changed, so it is run after every
  update. \<open>dispatched\<close> records every action the component has dispatched, oldest first.
\<close>

record app =
  store :: state
  notifier :: presenter
  dispatched :: "action list"

datatype event =
    Dispatch action
  | Dismiss real bool
  | Tick bool

definition runEffect :: "env \<Rightarrow> app \<Rightarrow> app" where
  "runEffect e ap = ap\<lparr>notifier := notifyEffect (now e) (alerts (store ap)) (notifier ap)\<rparr>"

text \<open>The first update of \<open>dismissNotification\<close>: the visible list.\<close>

definition hideNotification :: "real \<Rightarrow> app \<Rightarrow> app" where
  "hideNotification i ap = ap\<lparr>notifier := fst (dismissNotification i (notifier ap))\<rparr>"

text \<open>The actions the component dispatches, handled by the store in order.\<close>

definition dispatchFrom :: "env \<Rightarrow> action list \<Rightarrow> app \<Rightarrow> app" where
  "dispatchFrom e acts ap =
     ap\<lparr>store := dispatchAll (store ap) (map (Pair e) acts),
        dispatched := dispatched ap @ acts\<rparr>"

definition dismiss :: "bool \<Rightarrow> env \<Rightarrow> real \<Rightarrow> app \<Rightarrow> app" where
  "dismiss together e i ap =
     (let hidden = hideNotification i ap;
          rendered = (if together then hidden else runEffect e hidden)
      in runEffect e (dispatchFrom e (snd (dismissNotification i (notifier ap))) rendered))"

fun fireTimers :: "bool \<Rightarrow> env \<Rightarrow> (int \<times> real) list \<Rightarrow> app \<Rightarrow> app" where
  "fireTimers together e [] ap = ap"
| "fireTimers together e ((due, i) # rest) ap =
     fireTimers together e rest (dismiss together e i ap)"

definition tick :: "bool \<Rightarrow> env \<Rightarrow> app \<Rightarrow> app" where
  "tick together e ap =
     (let due = filter (\<lambda>(d, i). d \<le> now e) (timers (notifier ap));
          pending = filter (\<lambda>(d, i). \<not> d \<le> now e) (timers (notifier ap))
      in fireTimers together e due (ap\<lparr>notifier := (notifier ap)\<lparr>timers := pending\<rparr>\<rparr>))"

fun step :: "env \<Rightarrow> app \<Rightarrow> event \<Rightarrow> app" where
  "step e ap (Dispatch a) = runEffect e (ap\<lparr>store := alertReducer e (store ap) a\<rparr>)"
| "step e ap (Dismiss i together) = dismiss together e i ap"
| "step e ap (Tick together) = tick together e ap"

fun run :: "app \<Rightarrow> (env \<times> event) list \<Rightarrow> app" where
  "run ap [] = ap"
| "run ap ((e, ev) # rest) = run (step e ap ev) rest"

text \<open>The application at start-up, before the effect has run for the first time.\<close>

definition initialApp :: "storage \<Rightarrow> app" where
  "initialApp st =
     \<lparr> store = initialState st,
       notifier = \<lparr>visibleAlerts = [], timers = []\<rparr>,
       dispatched = [] \<rparr>"

section \<open>Notions used in the statements\<close>

text \<open>
  The number of records whose \<open>read\<close> field is false, by full recount: what
  \<open>unreadCount\<close> is meant to hold.
\<close>

definition unreadRecords :: "alert list \<Rightarrow> int" where
  "unreadRecords xs = int (length (filter (\<lambda>a. \<not> read a) xs))"


text \<open>
  A candidate that lacks one of the fields every alert is expected to have: its kind,
  title or content.
\<close>

definition missingRequiredField :: "payload \<Rightarrow> bool" where
  "missingRequiredField p \<longleftrightarrow> p_type p = None \<or> p_title p = None \<or> p_content p = None"

text \<open>The last conjunct of the filter in the effect, named.\<close>

definition promotable :: "alert \<Rightarrow> bool" where
  "promotable a \<longleftrightarrow>
     severity a = Some ''critical'' \<or> severity a = Some ''high'' \<or>
     alert_type a = Some ''phishing_detected''"






section \<open>Concrete stores and candidates\<close>

text \<open>Inputs at which the theorems below are instantiated.\<close>

definition atMs :: "int \<Rightarrow> env" where
  "atMs t = \<lparr>now = t, random = 1 / 2\<rparr>"

definition oldNote :: alert where
  "oldNote = \<lparr> alert_id = 1, timestamp = 0, read = True,
       alert_type = Some ''system_notification'', title = Some ''Old'', content = Some ''old'',
       severity = Some ''info'', riskLevel = None, details = None \<rparr>"

definition unreadWarning :: alert where
  "unreadWarning = \<lparr> alert_id = 7, timestamp = 86400000, read = False,
       alert_type = Some ''security_warning'', title = Some ''Suspicious link'',
       content = Some ''Link points to a look-alike domain'',
       severity = Some ''high'', riskLevel = None, details = None \<rparr>"

definition readNotice :: alert where
  "readNotice = \<lparr> alert_id = 9, timestamp = 172800000, read = True,
       alert_type = Some ''system_notification'', title = Some ''Update'',
       content = Some ''Definitions updated'',
       severity = Some ''success'', riskLevel = None, details = None \<rparr>"

definition fullState :: state where
  "fullState = \<lparr> alerts = replicate 100 oldNote, unreadCount = 0 \<rparr>"

definition twoAlerts :: state where
  "twoAlerts = \<lparr> alerts = [unreadWarning, oldNote], unreadCount = 1 \<rparr>"

definition sweepStore :: state where
  "sweepStore = \<lparr> alerts = [readNotice, unreadWarning, oldNote], unreadCount = 1 \<rparr>"

definition scanCandidate :: payload where
  "scanCandidate = createSystemAlert ''Scan'' ''Scan finished'' ''info'' []"


definition untitledCandidate :: payload where
  "untitledCandidate =
     \<lparr> p_id = None, p_timestamp = None, p_read = None,
       p_type = Some ''security_warning'', p_title = None, p_content = None,
       p_severity = Some ''high'', p_riskLevel = None, p_details = None \<rparr>"

definition replayCandidate :: payload where
  "replayCandidate =
     \<lparr> p_id = Some 7, p_timestamp = Some 1000, p_read = Some True,
       p_type = Some ''system_notification'', p_title = Some ''Replay'',
       p_content = Some ''Replayed record'',
       p_severity = Some ''info'', p_riskLevel = None, p_details = None \<rparr>"


definition nthCandidate :: "nat \<Rightarrow> payload" where
  "nthCandidate k = createSystemAlert ''Notice'' (replicate k CHR ''x'') ''info'' []"

definition addMany :: "nat \<Rightarrow> (env \<times> action) list" where
  "addMany n = map (\<lambda>k. (atMs (int k), ADD_ALERT (nthCandidate k))) [0..<n]"

section \<open>Facts about the reducer\<close>

lemma existingAlert_None_iff:
  "existingAlert e s n = None \<longleftrightarrow> (\<forall>a\<in>set (alerts s). \<not> isDuplicateOf e n a)"
  by (auto simp: existingAlert_def find_None_iff)

lemma add_duplicate:
  "existingAlert e s (newAlert e p) \<noteq> None \<Longrightarrow> alertReducer e s (ADD_ALERT p) = s"
  by (auto simp: Let_def)

lemma add_stored:
  "existingAlert e s (newAlert e p) = None \<Longrightarrow>
   alertReducer e s (ADD_ALERT p) =
     s\<lparr>alerts := take 100 (newAlert e p # alerts s), unreadCount := unreadCount s + 1\<rparr>"
  by (simp add: Let_def)

lemma take_100_Cons_full:
  "length xs = 100 \<Longrightarrow> take 100 (x # xs) = x # butlast xs"
  by (simp add: butlast_conv_take numeral_eq_Suc)

section \<open>The cap of 100 records\<close>

lemma alertReducer_length_le:
  assumes "length (alerts s) \<le> 100"
  shows "length (alerts (alertReducer e s a)) \<le> 100"
proof (cases a)
  case (ADD_ALERT p)
  with assms show ?thesis
    by (simp add: Let_def split: option.split)
next
  case (REMOVE_ALERT i)
  have "length (filter (\<lambda>a. alert_id a \<noteq> i) (alerts s)) \<le> 100"
    using length_filter_le [of "\<lambda>a. alert_id a \<noteq> i" "alerts s"] assms
    by (rule order_trans)
  with REMOVE_ALERT show ?thesis
    by (simp add: Let_def)
qed (use assms in \<open>simp_all add: Let_def\<close>)

lemma dispatchAll_length_le:
  "length (alerts s) \<le> 100 \<Longrightarrow> length (alerts (dispatchAll s evs)) \<le> 100"
proof (induction evs arbitrary: s)
  case Nil
  then show ?case by simp
next
  case (Cons x evs)
  obtain e a where x: "x = (e, a)" by (cases x)
  from Cons.prems have "length (alerts (alertReducer e s a)) \<le> 100"
    by (rule alertReducer_length_le)
  then show ?case
    using Cons.IH x by simp
qed


text \<open>
  Claim C2. From a store holding at most 100 alerts (the empty store in particular), no
  sequence of dispatched actions (adds interleaved with removals, mark-as-read and clear)
  makes the collection longer than 100. When a candidate that is not a duplicate is added
  to a store that already holds 100 alerts, the last, oldest, alert is dropped and the
  length is exactly 100.
\<close>

theorem alerts_length_capped:
  assumes "length (alerts s) \<le> 100"
  shows "length (alerts (dispatchAll s evs)) \<le> 100 \<and>
         length (alerts (dispatchAll (initialState None) evs)) \<le> 100 \<and>
         (existingAlert e s (newAlert e p) = None \<and> length (alerts s) = 100 \<longrightarrow>
            alerts (alertReducer e s (ADD_ALERT p)) = newAlert e p # butlast (alerts s) \<and>
            length (alerts (alertReducer e s (ADD_ALERT p))) = 100)"
proof -
  have "length (alerts (dispatchAll s evs)) \<le> 100"
    using assms by (rule dispatchAll_length_le)
  moreover have "length (alerts (dispatchAll (initialState None) evs)) \<le> 100"
    by (rule dispatchAll_length_le) (simp add: initialState_def)
  moreover have "alerts (alertReducer e s (ADD_ALERT p)) = newAlert e p # butlast (alerts s)"
    if "existingAlert e s (newAlert e p) = None" and "length (alerts s) = 100"
  proof -
    from that(1) have "alerts (alertReducer e s (ADD_ALERT p)) = take 100 (newAlert e p # alerts s)"
      by (simp add: add_stored del: alertReducer.simps take_Cons_numeral)
    with that(2) show ?thesis
      by (simp only: take_100_Cons_full)
  qed
  moreover have "length (alerts (alertReducer e s (ADD_ALERT p))) = 100"
    if "existingAlert e s (newAlert e p) = None" and "length (alerts s) = 100"
    using that by (simp add: add_stored del: alertReducer.simps)
  ultimately show ?thesis by blast
qed

theorem alerts_length_capped_witness:
  "length (alerts fullState) \<le> 100 \<and>
   existingAlert \<lparr>now = 5, random = 0\<rparr> fullState
     (newAlert \<lparr>now = 5, random = 0\<rparr> (createSystemAlert ''T'' ''fresh'' ''info'' [])) = None \<and>
   length (alerts fullState) = 100 \<and>
   length (alerts (dispatchAll fullState
     [(\<lparr>now = 5, random = 0\<rparr>, ADD_ALERT (createSystemAlert ''T'' ''fresh'' ''info'' []))])) \<le> 100 \<and>
   alerts (alertReducer \<lparr>now = 5, random = 0\<rparr> fullState
       (ADD_ALERT (createSystemAlert ''T'' ''fresh'' ''info'' []))) =
     newAlert \<lparr>now = 5, random = 0\<rparr> (createSystemAlert ''T'' ''fresh'' ''info'' []) #
       replicate 99 oldNote"
proof -
  let ?e = "\<lparr>now = 5, random = 0\<rparr>"
  let ?p = "createSystemAlert ''T'' ''fresh'' ''info'' []"
  have len: "length (alerts fullState) = 100"
    by (simp add: fullState_def)
  have fresh: "existingAlert ?e fullState (newAlert ?e ?p) = None"
    by (simp add: existingAlert_None_iff fullState_def isDuplicateOf_def oldNote_def
        newAlert_def createSystemAlert_def)
  have bl: "butlast (alerts fullState) = replicate 99 oldNote"
    by (simp add: fullState_def butlast_conv_take)
  from len have le: "length (alerts fullState) \<le> 100" by simp
  show ?thesis
    using alerts_length_capped [OF le, of "[(?e, ADD_ALERT ?p)]" ?e ?p] len fresh bl
    by (simp del: alertReducer.simps dispatchAll.simps)
qed

section \<open>The duplicate rule\<close>

lemma isDuplicateOf_newAlert:
  "isDuplicateOf e (newAlert e p) a \<longleftrightarrow>
     content a = p_content p \<and> alert_type a = p_type p \<and> now e - timestamp a < 60000"
  by (auto simp: isDuplicateOf_def newAlert_def)






section \<open>Candidates with missing fields\<close>

text \<open>
  The claim that a candidate missing a required field is rejected and leaves the store
  unchanged fails: the reducer never inspects which fields the candidate has. A
  candidate without title and content, added to the empty store, is stored and counted.
\<close>

theorem add_malformed_counterexample:
  "missingRequiredField untitledCandidate \<and>
   alerts (alertReducer (atMs 0) (initialState None) (ADD_ALERT untitledCandidate)) =
     [newAlert (atMs 0) untitledCandidate] \<and>
   unreadCount (alertReducer (atMs 0) (initialState None) (ADD_ALERT untitledCandidate)) = 1 \<and>
   alertReducer (atMs 0) (initialState None) (ADD_ALERT untitledCandidate) \<noteq> initialState None"
  by (simp add: missingRequiredField_def untitledCandidate_def initialState_def
      existingAlert_def Let_def)

text \<open>
  Claim C9, amended. Adding does not validate the candidate. A candidate missing its
  kind, title or content is handled like any other: if a stored record has the same
  content and kind (an absent field equal to an absent one) and is less than 60 seconds
  old, the store is unchanged; otherwise the record is stored in front with those fields
  absent, the cap is applied and \<open>unreadCount\<close> grows by one. The reducer has no other
  outcome, so there is no rejection.
\<close>

theorem add_malformed_not_validated:
  assumes "missingRequiredField p"
  shows "alertReducer e s (ADD_ALERT p) =
     (if \<exists>a\<in>set (alerts s). content a = p_content p \<and> alert_type a = p_type p \<and>
                              now e - timestamp a < 60000
      then s
      else s\<lparr>alerts := take 100 (newAlert e p # alerts s), unreadCount := unreadCount s + 1\<rparr>)"
proof (cases "existingAlert e s (newAlert e p)")
  case None
  then show ?thesis
    using add_stored [OF None]
    unfolding existingAlert_None_iff isDuplicateOf_newAlert by auto
next
  case (Some a)
  then have "existingAlert e s (newAlert e p) \<noteq> None" by simp
  then show ?thesis
    using add_duplicate [of e s p]
    unfolding existingAlert_None_iff isDuplicateOf_newAlert by auto
qed

theorem add_malformed_not_validated_witness:
  "missingRequiredField untitledCandidate \<and>
   alertReducer (atMs 0) (initialState None) (ADD_ALERT untitledCandidate) =
     \<lparr>alerts = [newAlert (atMs 0) untitledCandidate], unreadCount = 1\<rparr>"
proof -
  have m: "missingRequiredField untitledCandidate"
    by (simp add: missingRequiredField_def untitledCandidate_def)
  show ?thesis
    using add_malformed_not_validated [OF m, of "atMs 0" "initialState None"] m
    by (simp add: initialState_def del: alertReducer.simps)
qed

section \<open>Marking as read\<close>

lemma read_update_id: "read a \<Longrightarrow> a\<lparr>read := True\<rparr> = a"
  by (cases a) simp

lemma map_markRead_id:
  "\<forall>a\<in>set xs. alert_id a = i \<longrightarrow> read a \<Longrightarrow>
   map (\<lambda>a. if alert_id a = i then a\<lparr>read := True\<rparr> else a) xs = xs"
  by (induction xs) (simp_all add: read_update_id)


lemma markRead_when_unread:
  assumes "\<exists>a\<in>set (alerts s). alert_id a = i \<and> \<not> read a"
  shows "alertReducer e s (MARK_AS_READ i) =
     s\<lparr>alerts := map (\<lambda>a. if alert_id a = i then a\<lparr>read := True\<rparr> else a) (alerts s),
       unreadCount := unreadCount s - 1\<rparr>"
proof -
  from assms have "find (\<lambda>a. alert_id a = i \<and> \<not> read a) (alerts s) \<noteq> None"
    unfolding find_None_iff by blast
  then obtain x where "find (\<lambda>a. alert_id a = i \<and> \<not> read a) (alerts s) = Some x"
    by blast
  then show ?thesis
    by (simp add: Let_def)
qed


lemma markRead_alerts:
  "alerts (alertReducer e s (MARK_AS_READ i)) =
     map (\<lambda>a. if alert_id a = i then a\<lparr>read := True\<rparr> else a) (alerts s)"
  by (simp add: Let_def)

lemma map_markRead_all_read:
  "a \<in> set (map (\<lambda>a. if alert_id a = i then a\<lparr>read := True\<rparr> else a) xs) \<Longrightarrow>
   alert_id a = i \<Longrightarrow> read a"
proof -
  assume "a \<in> set (map (\<lambda>a. if alert_id a = i then a\<lparr>read := True\<rparr> else a) xs)"
  then obtain b where b: "b \<in> set xs" "a = (if alert_id b = i then b\<lparr>read := True\<rparr> else b)"
    by (auto simp only: set_map image_iff)
  assume "alert_id a = i"
  with b show "read a"
    by (cases "alert_id b = i") simp_all
qed

lemma markRead_all_read:
  "\<forall>a\<in>set (alerts (alertReducer e s (MARK_AS_READ i))). alert_id a = i \<longrightarrow> read a"
  unfolding markRead_alerts using map_markRead_all_read by blast


lemma markRead_noop:
  assumes "\<not> (\<exists>a\<in>set (alerts s). alert_id a = i \<and> \<not> read a)"
  shows "alertReducer e s (MARK_AS_READ i) = s"
proof -
  from assms have "find (\<lambda>a. alert_id a = i \<and> \<not> read a) (alerts s) = None"
    unfolding find_None_iff by blast
  moreover from assms
  have "map (\<lambda>a. if alert_id a = i then a\<lparr>read := True\<rparr> else a) (alerts s) = alerts s"
    by (intro map_markRead_id) blast
  ultimately show ?thesis
    by (simp add: Let_def)
qed
text \<open>
  Claim C6. If some stored record has the given id and is unread, mark-as-read sets
  \<open>read\<close> on the records with that id, leaves every other record as it was and lowers
  \<open>unreadCount\<close> by exactly one. If there is no such record (the id is absent, or
  already read), the state is unchanged. In every case the records with that id are read
  afterwards, a second call changes nothing, and two calls together move \<open>unreadCount\<close>
  by at most one.
\<close>

theorem markAsRead_effect:
  "((\<exists>a\<in>set (alerts s). alert_id a = i \<and> \<not> read a) \<longrightarrow>
      alerts (alertReducer e s (MARK_AS_READ i)) =
        map (\<lambda>a. if alert_id a = i then a\<lparr>read := True\<rparr> else a) (alerts s) \<and>
      unreadCount (alertReducer e s (MARK_AS_READ i)) = unreadCount s - 1) \<and>
   (\<not> (\<exists>a\<in>set (alerts s). alert_id a = i \<and> \<not> read a) \<longrightarrow>
      alertReducer e s (MARK_AS_READ i) = s) \<and>
   (\<forall>a\<in>set (alerts (alertReducer e s (MARK_AS_READ i))). alert_id a = i \<longrightarrow> read a) \<and>
   alertReducer e' (alertReducer e s (MARK_AS_READ i)) (MARK_AS_READ i) =
     alertReducer e s (MARK_AS_READ i) \<and>
   \<bar>unreadCount (alertReducer e' (alertReducer e s (MARK_AS_READ i)) (MARK_AS_READ i)) -
     unreadCount s\<bar> \<le> 1"
proof -
  let ?s1 = "alertReducer e s (MARK_AS_READ i)"
  have all_read: "\<forall>a\<in>set (alerts ?s1). alert_id a = i \<longrightarrow> read a"
    by (rule markRead_all_read)
  then have "\<not> (\<exists>a\<in>set (alerts ?s1). alert_id a = i \<and> \<not> read a)"
    by blast
  then have twice: "alertReducer e' ?s1 (MARK_AS_READ i) = ?s1"
    by (rule markRead_noop)
  have first: "alerts ?s1 = map (\<lambda>a. if alert_id a = i then a\<lparr>read := True\<rparr> else a) (alerts s) \<and>
      unreadCount ?s1 = unreadCount s - 1"
    if "\<exists>a\<in>set (alerts s). alert_id a = i \<and> \<not> read a"
    unfolding markRead_when_unread [OF that] by simp
  have noop: "?s1 = s" if "\<not> (\<exists>a\<in>set (alerts s). alert_id a = i \<and> \<not> read a)"
    using that by (rule markRead_noop)
  have "\<bar>unreadCount ?s1 - unreadCount s\<bar> \<le> 1"
  proof (cases "\<exists>a\<in>set (alerts s). alert_id a = i \<and> \<not> read a")
    case True
    from first [OF True] show ?thesis by simp
  next
    case False
    from noop [OF False] show ?thesis by simp
  qed
  then have "\<bar>unreadCount (alertReducer e' ?s1 (MARK_AS_READ i)) - unreadCount s\<bar> \<le> 1"
    unfolding twice .
  with first noop all_read twice show ?thesis
    by blast
qed

theorem markAsRead_effect_witness:
  "alertReducer (atMs 0) twoAlerts (MARK_AS_READ 7) =
     \<lparr>alerts = [unreadWarning\<lparr>read := True\<rparr>, oldNote], unreadCount = 0\<rparr> \<and>
   alertReducer (atMs 0) twoAlerts (MARK_AS_READ 1) = twoAlerts \<and>
   alertReducer (atMs 0) twoAlerts (MARK_AS_READ 9) = twoAlerts \<and>
   alertReducer (atMs 5) (alertReducer (atMs 0) twoAlerts (MARK_AS_READ 7)) (MARK_AS_READ 7) =
     alertReducer (atMs 0) twoAlerts (MARK_AS_READ 7)"
proof -
  have u: "\<exists>a\<in>set (alerts twoAlerts). alert_id a = 7 \<and> \<not> read a"
    by (simp add: twoAlerts_def unreadWarning_def oldNote_def)
  have r: "\<not> (\<exists>a\<in>set (alerts twoAlerts). alert_id a = 1 \<and> \<not> read a)"
    by (simp add: twoAlerts_def unreadWarning_def oldNote_def)
  have n: "\<not> (\<exists>a\<in>set (alerts twoAlerts). alert_id a = 9 \<and> \<not> read a)"
    by (simp add: twoAlerts_def unreadWarning_def oldNote_def)
  have m: "map (\<lambda>a. if alert_id a = 7 then a\<lparr>read := True\<rparr> else a) (alerts twoAlerts) =
      [unreadWarning\<lparr>read := True\<rparr>, oldNote]"
    by (simp add: twoAlerts_def unreadWarning_def oldNote_def)
  have c: "unreadCount twoAlerts - 1 = 0"
    by (simp add: twoAlerts_def)
  have eq: "s = \<lparr>alerts = xs, unreadCount = k\<rparr>" if "alerts s = xs" "unreadCount s = k"
    for s :: state and xs k
    using that by (cases s) simp
  from markAsRead_effect [of twoAlerts 7 "atMs 0" "atMs 5"] u m c
  have 1: "alertReducer (atMs 0) twoAlerts (MARK_AS_READ 7) =
     \<lparr>alerts = [unreadWarning\<lparr>read := True\<rparr>, oldNote], unreadCount = 0\<rparr>"
    by (intro eq) (simp_all del: alertReducer.simps)
  from markAsRead_effect [of twoAlerts 7 "atMs 0" "atMs 5"]
  have 2: "alertReducer (atMs 5) (alertReducer (atMs 0) twoAlerts (MARK_AS_READ 7)) (MARK_AS_READ 7) =
     alertReducer (atMs 0) twoAlerts (MARK_AS_READ 7)"
    by blast
  from markAsRead_effect [of twoAlerts 1 "atMs 0" "atMs 5"] r
  have 3: "alertReducer (atMs 0) twoAlerts (MARK_AS_READ 1) = twoAlerts"
    by blast
  from markAsRead_effect [of twoAlerts 9 "atMs 0" "atMs 5"] n
  have 4: "alertReducer (atMs 0) twoAlerts (MARK_AS_READ 9) = twoAlerts"
    by blast
  from 1 2 3 4 show ?thesis by blast
qed

section \<open>Candidate fields override the store's defaults\<close>

lemma newAlert_keys_present:
  "p_id p = Some i \<Longrightarrow> alert_id (newAlert e p) = i"
  "p_timestamp p = Some t \<Longrightarrow> timestamp (newAlert e p) = t"
  "p_read p = Some r \<Longrightarrow> read (newAlert e p) = r"
  by (simp_all add: newAlert_def)

lemma newAlert_keys_absent:
  "p_id p = None \<Longrightarrow> alert_id (newAlert e p) = real_of_int (now e) + random e"
  "p_timestamp p = None \<Longrightarrow> timestamp (newAlert e p) = now e"
  "p_read p = None \<Longrightarrow> \<not> read (newAlert e p)"
  by (simp_all add: newAlert_def)

lemma add_stored_alerts:
  "existingAlert e s (newAlert e p) = None \<Longrightarrow>
   alerts (alertReducer e s (ADD_ALERT p)) = newAlert e p # take 99 (alerts s)"
  by (simp add: add_stored del: alertReducer.simps)

text \<open>
  Claim C10. The record that an add stores is the one built by \<open>newAlert\<close>, and it takes
  \<open>id\<close>, \<open>timestamp\<close> and \<open>read\<close> from the candidate wherever the candidate has them; the
  store's own values (clock plus random number, the clock, unread) are used only for the
  keys the candidate lacks. So a caller can store a record that is already read and
  carries the id of a record that is in the store.
\<close>

theorem newAlert_candidate_overrides:
  "(existingAlert e s (newAlert e p) = None \<longrightarrow>
      (\<exists>rest. alerts (alertReducer e s (ADD_ALERT p)) = newAlert e p # rest)) \<and>
   (p_id p = Some i \<longrightarrow> alert_id (newAlert e p) = i) \<and>
   (p_timestamp p = Some t \<longrightarrow> timestamp (newAlert e p) = t) \<and>
   (p_read p = Some r \<longrightarrow> read (newAlert e p) = r) \<and>
   (p_id p = None \<longrightarrow> alert_id (newAlert e p) = real_of_int (now e) + random e) \<and>
   (p_timestamp p = None \<longrightarrow> timestamp (newAlert e p) = now e) \<and>
   (p_read p = None \<longrightarrow> \<not> read (newAlert e p)) \<and>
   (\<exists>s' e' p'. existingAlert e' s' (newAlert e' p') = None \<and>
      read (hd (alerts (alertReducer e' s' (ADD_ALERT p')))) \<and>
      alert_id (hd (alerts (alertReducer e' s' (ADD_ALERT p'))))
        \<in> alert_id ` set (alerts s'))"
proof -
  have stored: "\<exists>rest. alerts (alertReducer e s (ADD_ALERT p)) = newAlert e p # rest"
    if "existingAlert e s (newAlert e p) = None"
    using add_stored_alerts [OF that] by blast
  have fresh: "existingAlert (atMs 90000000) twoAlerts (newAlert (atMs 90000000) replayCandidate) = None"
    by (simp add: existingAlert_None_iff isDuplicateOf_newAlert twoAlerts_def unreadWarning_def
        oldNote_def replayCandidate_def)
  have "hd (alerts (alertReducer (atMs 90000000) twoAlerts (ADD_ALERT replayCandidate))) =
      newAlert (atMs 90000000) replayCandidate"
    unfolding add_stored_alerts [OF fresh] by simp
  moreover have "read (newAlert (atMs 90000000) replayCandidate)"
    by (simp add: newAlert_def replayCandidate_def)
  moreover have "alert_id (newAlert (atMs 90000000) replayCandidate) \<in> alert_id ` set (alerts twoAlerts)"
    by (simp add: newAlert_def replayCandidate_def twoAlerts_def unreadWarning_def)
  ultimately have "existingAlert (atMs 90000000) twoAlerts (newAlert (atMs 90000000) replayCandidate) = None \<and>
      read (hd (alerts (alertReducer (atMs 90000000) twoAlerts (ADD_ALERT replayCandidate)))) \<and>
      alert_id (hd (alerts (alertReducer (atMs 90000000) twoAlerts (ADD_ALERT replayCandidate))))
        \<in> alert_id ` set (alerts twoAlerts)"
    using fresh by simp
  then have ex: "\<exists>s' e' p'. existingAlert e' s' (newAlert e' p') = None \<and>
      read (hd (alerts (alertReducer e' s' (ADD_ALERT p')))) \<and>
      alert_id (hd (alerts (alertReducer e' s' (ADD_ALERT p'))))
        \<in> alert_id ` set (alerts s')"
    by (intro exI)
  from stored ex newAlert_keys_present [of p] newAlert_keys_absent [of p e]
  show ?thesis by (intro conjI impI) assumption+
qed

theorem newAlert_candidate_overrides_witness:
  "existingAlert (atMs 90000000) twoAlerts (newAlert (atMs 90000000) replayCandidate) = None \<and>
   p_id replayCandidate = Some 7 \<and> p_timestamp replayCandidate = Some 1000 \<and>
   p_read replayCandidate = Some True \<and>
   (\<exists>rest. alerts (alertReducer (atMs 90000000) twoAlerts (ADD_ALERT replayCandidate)) =
      newAlert (atMs 90000000) replayCandidate # rest) \<and>
   alert_id (newAlert (atMs 90000000) replayCandidate) = 7 \<and>
   timestamp (newAlert (atMs 90000000) replayCandidate) = 1000 \<and>
   read (newAlert (atMs 90000000) replayCandidate) \<and>
   p_id scanCandidate = None \<and> p_timestamp scanCandidate = None \<and> p_read scanCandidate = None \<and>
   alert_id (newAlert (atMs 0) scanCandidate) = 1 / 2 \<and>
   timestamp (newAlert (atMs 0) scanCandidate) = 0 \<and>
   \<not> read (newAlert (atMs 0) scanCandidate)"
proof -
  have fresh: "existingAlert (atMs 90000000) twoAlerts (newAlert (atMs 90000000) replayCandidate) = None"
    by (simp add: existingAlert_None_iff isDuplicateOf_newAlert twoAlerts_def unreadWarning_def
        oldNote_def replayCandidate_def)
  have keys: "p_id replayCandidate = Some 7" "p_timestamp replayCandidate = Some 1000"
    "p_read replayCandidate = Some True"
    by (simp_all add: replayCandidate_def)
  have keys0: "p_id scanCandidate = None" "p_timestamp scanCandidate = None"
    "p_read scanCandidate = None"
    by (simp_all add: scanCandidate_def createSystemAlert_def)
  have clock: "real_of_int (now (atMs 0)) + random (atMs 0) = 1 / 2" "now (atMs 0) = 0"
    by (simp_all add: atMs_def)
  from newAlert_candidate_overrides
    [of "atMs 90000000" twoAlerts replayCandidate 7 1000 True] fresh keys
  have 1: "(\<exists>rest. alerts (alertReducer (atMs 90000000) twoAlerts (ADD_ALERT replayCandidate)) =
      newAlert (atMs 90000000) replayCandidate # rest) \<and>
   alert_id (newAlert (atMs 90000000) replayCandidate) = 7 \<and>
   timestamp (newAlert (atMs 90000000) replayCandidate) = 1000 \<and>
   read (newAlert (atMs 90000000) replayCandidate)"
    by blast
  from newAlert_candidate_overrides [of "atMs 0" "initialState None" scanCandidate] keys0
  have "alert_id (newAlert (atMs 0) scanCandidate) = real_of_int (now (atMs 0)) + random (atMs 0) \<and>
   timestamp (newAlert (atMs 0) scanCandidate) = now (atMs 0) \<and>
   \<not> read (newAlert (atMs 0) scanCandidate)"
    by blast
  with clock have 2: "alert_id (newAlert (atMs 0) scanCandidate) = 1 / 2 \<and>
   timestamp (newAlert (atMs 0) scanCandidate) = 0 \<and>
   \<not> read (newAlert (atMs 0) scanCandidate)"
    by simp
  from fresh keys keys0 1 2 show ?thesis by blast
qed

section \<open>The unread counter\<close>

lemma dispatchAll_append:
  "dispatchAll s (xs @ ys) = dispatchAll (dispatchAll s xs) ys"
  by (induction xs arbitrary: s) auto

lemma nthCandidate_fields:
  "p_content (nthCandidate k) = Some (replicate k CHR ''x'')"
  "p_read (nthCandidate k) = None"
  by (simp_all add: nthCandidate_def createSystemAlert_def)

lemma addMany_Suc:
  "addMany (Suc n) = addMany n @ [(atMs (int n), ADD_ALERT (nthCandidate n))]"
  by (simp add: addMany_def)

lemma addMany_state:
  "dispatchAll (initialState None) (addMany n) =
     \<lparr> alerts = take 100 (map (\<lambda>k. newAlert (atMs (int k)) (nthCandidate k)) (rev [0..<n])),
       unreadCount = int n \<rparr>"
proof (induction n)
  case 0
  show ?case by (simp add: addMany_def initialState_def)
next
  case (Suc n)
  let ?new = "\<lambda>k. newAlert (atMs (int k)) (nthCandidate k)"
  let ?s = "\<lparr> alerts = take 100 (map ?new (rev [0..<n])), unreadCount = int n \<rparr>"
  have "\<not> isDuplicateOf (atMs (int n)) (?new n) a" if "a \<in> set (alerts ?s)" for a
  proof -
    from that have "a \<in> set (map ?new (rev [0..<n]))"
      by (auto dest: in_set_takeD)
    then obtain k where "k < n" "a = ?new k" by auto
    then have "content a \<noteq> content (?new n)"
      by (simp add: newAlert_def nthCandidate_fields)
    then show ?thesis
      by (simp add: isDuplicateOf_def)
  qed
  then have "existingAlert (atMs (int n)) ?s (?new n) = None"
    unfolding existingAlert_None_iff by blast
  then have "alertReducer (atMs (int n)) ?s (ADD_ALERT (nthCandidate n)) =
      ?s\<lparr>alerts := take 100 (?new n # alerts ?s), unreadCount := unreadCount ?s + 1\<rparr>"
    by (rule add_stored)
  also have "\<dots> = \<lparr> alerts = take 100 (map ?new (rev [0..<Suc n])), unreadCount = int (Suc n) \<rparr>"
    by (simp add: take_Cons')
  finally show ?case
    by (simp add: addMany_Suc dispatchAll_append Suc.IH del: alertReducer.simps)
qed

lemma unreadRecords_all_unread:
  "\<forall>a\<in>set xs. \<not> read a \<Longrightarrow> unreadRecords xs = int (length xs)"
  by (simp add: unreadRecords_def)

text \<open>
  Claim C1 fails on the code at the cap. The \<open>ADD_ALERT\<close> case cuts the list to 100
  records but adds one to \<open>unreadCount\<close> without looking at the record it drops. After
  101 adds of candidates with pairwise different content to the empty store, 100 records
  are held, all of them unread, and \<open>unreadCount\<close> is 101.
\<close>

theorem unreadCount_after_101_adds:
  "length (alerts (dispatchAll (initialState None) (addMany 101))) = 100 \<and>
   unreadRecords (alerts (dispatchAll (initialState None) (addMany 101))) = 100 \<and>
   unreadCount (dispatchAll (initialState None) (addMany 101)) = 101"
proof -
  let ?xs = "take 100 (map (\<lambda>k. newAlert (atMs (int k)) (nthCandidate k)) (rev [0..<101]))"
  have len: "length ?xs = 100" by simp
  have "\<forall>a\<in>set ?xs. \<not> read a"
    by (auto dest!: in_set_takeD simp: newAlert_def nthCandidate_fields)
  then have "unreadRecords ?xs = int (length ?xs)"
    by (rule unreadRecords_all_unread)
  with len show ?thesis
    unfolding addMany_state by simp
qed

section \<open>Start-up\<close>

text \<open>
  Claim C5 fails on the code in its second half. The alerts written by \<open>persist\<close> are
  read back as they were, but \<open>initialState\<close> sets \<open>unreadCount\<close> to the constant 0 and
  never counts the loaded records: after a restart on a store with one unread record the
  counter is 0 while the recount is 1.
\<close>

theorem initialState_unreadCount_zero:
  "alerts (initialState (persist s)) = alerts s \<and>
   unreadCount (initialState (persist s)) = 0 \<and>
   unreadCount twoAlerts = 1 \<and>
   unreadRecords (alerts (initialState (persist twoAlerts))) = 1 \<and>
   unreadCount (initialState (persist twoAlerts)) = 0"
  by (simp add: initialState_def persist_def unreadRecords_def twoAlerts_def
      unreadWarning_def oldNote_def)

section \<open>The daily clean-up\<close>

lemma newAlert_asPayload: "newAlert e (asPayload a) = a"
  by (cases a) (simp add: newAlert_def asPayload_def)

text \<open>
  Claim C4 fails on the code. The sweep clears the store and dispatches \<open>ADD_ALERT\<close>
  for each survivor, newest first, so the survivors end up in reverse order and every
  one of them, read or not, adds one to \<open>unreadCount\<close>. On a store of a read record, an
  unread record and a record older than 30 days, the old record is removed, the two
  survivors keep their fields but change places, and \<open>unreadCount\<close> is 2 with one unread
  survivor.
\<close>

theorem cleanup_reverses_and_recounts:
  "filter (\<lambda>a. timestamp a > thirtyDaysAgo (atMs 2635200000)) (alerts sweepStore) =
     [readNotice, unreadWarning] \<and>
   cleanup (atMs 2635200000) sweepStore =
     \<lparr>alerts = [unreadWarning, readNotice], unreadCount = 2\<rparr> \<and>
   unreadRecords [unreadWarning, readNotice] = 1"
proof -
  have keep: "filter (\<lambda>a. timestamp a > thirtyDaysAgo (atMs 2635200000)) (alerts sweepStore) =
     [readNotice, unreadWarning]"
    by (simp add: thirtyDaysAgo_def atMs_def sweepStore_def readNotice_def unreadWarning_def
        oldNote_def)
  have d: "\<not> isDuplicateOf (atMs 2635200000) unreadWarning readNotice"
    by (simp add: isDuplicateOf_def readNotice_def unreadWarning_def)
  have "cleanup (atMs 2635200000) sweepStore =
     \<lparr>alerts = [unreadWarning, readNotice], unreadCount = 2\<rparr>"
    unfolding cleanup_def keep
    by (simp add: sweepStore_def Let_def newAlert_asPayload existingAlert_def d)
  moreover have "unreadRecords [unreadWarning, readNotice] = 1"
    by (simp add: unreadRecords_def unreadWarning_def readNotice_def)
  ultimately show ?thesis using keep by blast
qed

section \<open>Promotion to the visible notifications\<close>

lemma find_id_None_iff:
  "find (\<lambda>v. alert_id v = i) vis = None \<longleftrightarrow> i \<notin> alert_id ` set vis"
  by (auto simp: find_None_iff)

lemma newAlerts_iff:
  "a \<in> set (newAlerts als vis) \<longleftrightarrow>
     a \<in> set als \<and> \<not> read a \<and> alert_id a \<notin> alert_id ` set vis \<and>
     (severity a = Some ''critical'' \<or> severity a = Some ''high'' \<or>
      alert_type a = Some ''phishing_detected'')"
  unfolding newAlerts_def set_filter find_id_None_iff by blast

lemma notifyEffect_visible:
  "visibleAlerts (notifyEffect t als pr) = visibleAlerts pr @ newAlerts als (visibleAlerts pr)"
  by (simp add: notifyEffect_def Let_def)


lemma newAlerts_again:
  "newAlerts als (vis @ newAlerts als vis) = []"
proof -
  have "a \<notin> set (newAlerts als (vis @ newAlerts als vis))" for a
  proof
    assume "a \<in> set (newAlerts als (vis @ newAlerts als vis))"
    then have a: "a \<in> set als" "\<not> read a"
      "alert_id a \<notin> alert_id ` set (vis @ newAlerts als vis)"
      "severity a = Some ''critical'' \<or> severity a = Some ''high'' \<or>
       alert_type a = Some ''phishing_detected''"
      using newAlerts_iff [of a als "vis @ newAlerts als vis"] by blast+
    from a(3) have "alert_id a \<notin> alert_id ` set vis"
      and "alert_id a \<notin> alert_id ` set (newAlerts als vis)"
      by auto
    moreover from a(1,2,4) \<open>alert_id a \<notin> alert_id ` set vis\<close>
    have "a \<in> set (newAlerts als vis)"
      using newAlerts_iff [of a als vis] by blast
    ultimately show False by blast
  qed
  then show ?thesis
    by (cases "newAlerts als (vis @ newAlerts als vis)") auto
qed

lemma newAlerts_promotable:
  "a \<in> set (newAlerts als vis) \<Longrightarrow> promotable a"
  unfolding newAlerts_iff promotable_def by blast

lemma notifyEffect_keeps_promotable:
  assumes "\<forall>v\<in>set (visibleAlerts pr). promotable v"
  shows "\<forall>v\<in>set (visibleAlerts (notifyEffect t als pr)). promotable v"
  using assms newAlerts_promotable unfolding notifyEffect_visible by auto

lemma runEffect_keeps_promotable:
  assumes "\<forall>v\<in>set (visibleAlerts (notifier ap)). promotable v"
  shows "\<forall>v\<in>set (visibleAlerts (notifier (runEffect e ap))). promotable v"
  using notifyEffect_keeps_promotable [OF assms] by (simp add: runEffect_def)


lemma hideNotification_fields:
  "store (hideNotification j ap) = store ap"
  "dispatched (hideNotification j ap) = dispatched ap"
  "visibleAlerts (notifier (hideNotification j ap)) =
     filter (\<lambda>a. alert_id a \<noteq> j) (visibleAlerts (notifier ap))"
  "timers (notifier (hideNotification j ap)) = timers (notifier ap)"
  by (simp_all add: hideNotification_def dismissNotification_def)

lemma dispatchFrom_fields:
  "store (dispatchFrom e [MARK_AS_READ j] ap) = alertReducer e (store ap) (MARK_AS_READ j)"
  "notifier (dispatchFrom e acts ap) = notifier ap"
  "dispatched (dispatchFrom e acts ap) = dispatched ap @ acts"
  by (simp_all add: dispatchFrom_def del: alertReducer.simps)

lemma dismiss_unfold:
  "dismiss together e j ap =
     runEffect e (dispatchFrom e [MARK_AS_READ j]
       (if together then hideNotification j ap else runEffect e (hideNotification j ap)))"
  by (simp add: dismiss_def dismissNotification_def Let_def)

lemma hideNotification_keeps_promotable:
  assumes "\<forall>v\<in>set (visibleAlerts (notifier ap)). promotable v"
  shows "\<forall>v\<in>set (visibleAlerts (notifier (hideNotification j ap))). promotable v"
  using assms unfolding hideNotification_fields by simp

lemma dispatchFrom_keeps_promotable:
  assumes "\<forall>v\<in>set (visibleAlerts (notifier ap)). promotable v"
  shows "\<forall>v\<in>set (visibleAlerts (notifier (dispatchFrom e acts ap))). promotable v"
  using assms unfolding dispatchFrom_fields .

lemma dismiss_keeps_promotable:
  assumes "\<forall>v\<in>set (visibleAlerts (notifier ap)). promotable v"
  shows "\<forall>v\<in>set (visibleAlerts (notifier (dismiss together e j ap))). promotable v"
proof -
  let ?rendered = "if together then hideNotification j ap else runEffect e (hideNotification j ap)"
  from assms have h: "\<forall>v\<in>set (visibleAlerts (notifier (hideNotification j ap))). promotable v"
    by (rule hideNotification_keeps_promotable)
  have "\<forall>v\<in>set (visibleAlerts (notifier ?rendered)). promotable v"
  proof (cases together)
    case True
    with h show ?thesis by simp
  next
    case False
    with runEffect_keeps_promotable [OF h, of e] show ?thesis by simp
  qed
  then have "\<forall>v\<in>set (visibleAlerts (notifier (dispatchFrom e [MARK_AS_READ j] ?rendered))). promotable v"
    by (rule dispatchFrom_keeps_promotable)
  then show ?thesis
    unfolding dismiss_unfold by (rule runEffect_keeps_promotable)
qed

lemma fireTimers_keeps_promotable:
  "\<forall>v\<in>set (visibleAlerts (notifier ap)). promotable v \<Longrightarrow>
   \<forall>v\<in>set (visibleAlerts (notifier (fireTimers together e ts ap))). promotable v"
proof (induction ts arbitrary: ap)
  case Nil
  then show ?case by simp
next
  case (Cons x ts)
  obtain due i where x: "x = (due, i)" by (cases x)
  from Cons.prems
  have "\<forall>v\<in>set (visibleAlerts (notifier (dismiss together e i ap))). promotable v"
    by (rule dismiss_keeps_promotable)
  then show ?case
    unfolding x fireTimers.simps by (rule Cons.IH)
qed

lemma step_keeps_promotable:
  assumes "\<forall>v\<in>set (visibleAlerts (notifier ap)). promotable v"
  shows "\<forall>v\<in>set (visibleAlerts (notifier (step e ap ev))). promotable v"
proof (cases ev)
  case (Dispatch a)
  from assms have "\<forall>v\<in>set (visibleAlerts (notifier (ap\<lparr>store := alertReducer e (store ap) a\<rparr>))). promotable v"
    by simp
  then show ?thesis
    unfolding Dispatch step.simps by (rule runEffect_keeps_promotable)
next
  case (Dismiss i together)
  from assms show ?thesis
    unfolding Dismiss step.simps by (rule dismiss_keeps_promotable)
next
  case (Tick together)
  from assms have "\<forall>v\<in>set (visibleAlerts (notifier (ap\<lparr>notifier := (notifier ap)
      \<lparr>timers := filter (\<lambda>(d, i). \<not> d \<le> now e) (timers (notifier ap))\<rparr>\<rparr>))). promotable v"
    by simp
  then show ?thesis
    unfolding Tick step.simps tick_def Let_def by (rule fireTimers_keeps_promotable)
qed

lemma run_keeps_promotable:
  "\<forall>v\<in>set (visibleAlerts (notifier ap)). promotable v \<Longrightarrow>
   \<forall>v\<in>set (visibleAlerts (notifier (run ap evs))). promotable v"
proof (induction evs arbitrary: ap)
  case Nil
  then show ?case by simp
next
  case (Cons x evs)
  obtain e ev where x: "x = (e, ev)" by (cases x)
  from Cons.prems have "\<forall>v\<in>set (visibleAlerts (notifier (step e ap ev))). promotable v"
    by (rule step_keeps_promotable)
  then show ?case
    unfolding x run.simps by (rule Cons.IH)
qed

lemma run_initialApp_promotable:
  "\<forall>v\<in>set (visibleAlerts (notifier (run (initialApp st) evs))). promotable v"
  by (rule run_keeps_promotable) (simp add: initialApp_def)

lemma step_add_store:
  "store (step e ap (Dispatch a)) = alertReducer e (store ap) a"
  by (simp add: runEffect_def del: alertReducer.simps)

text \<open>
  Claim C7. When the effect runs, a record is among the visible notifications afterwards
  exactly if it was visible before or it is in the store, unread, its id is not yet
  visible and its severity is critical or high or its kind is phishing_detected. What
  has been promoted is not promoted again: a record whose id is visible is not among the
  records the effect picks, and a second run of the effect on the same store promotes
  nothing. In every run of the application all visible notifications meet the
  severity-or-kind condition, so a system notification with severity info is never
  visible, although adding it stores it unread and raises \<open>unreadCount\<close>.
\<close>

theorem promotion_rule:
  "(a \<in> set (visibleAlerts (notifyEffect t als pr)) \<longleftrightarrow>
      a \<in> set (visibleAlerts pr) \<or>
      (a \<in> set als \<and> \<not> read a \<and> alert_id a \<notin> alert_id ` set (visibleAlerts pr) \<and>
       (severity a = Some ''critical'' \<or> severity a = Some ''high'' \<or>
        alert_type a = Some ''phishing_detected''))) \<and>
   (alert_id a \<in> alert_id ` set (visibleAlerts pr) \<longrightarrow>
      a \<notin> set (newAlerts als (visibleAlerts pr))) \<and>
   newAlerts als (visibleAlerts (notifyEffect t als pr)) = [] \<and>
   (\<forall>v\<in>set (visibleAlerts (notifier (run (initialApp st) evs))).
      severity v = Some ''critical'' \<or> severity v = Some ''high'' \<or>
      alert_type v = Some ''phishing_detected'') \<and>
   (alert_type a = Some ''system_notification'' \<and> severity a = Some ''info'' \<longrightarrow>
      a \<notin> set (visibleAlerts (notifier (run (initialApp st) evs)))) \<and>
   (existingAlert e (store ap) (newAlert e (createSystemAlert tt c ''info'' d)) = None \<longrightarrow>
      newAlert e (createSystemAlert tt c ''info'' d)
        \<in> set (alerts (store (step e ap (Dispatch (ADD_ALERT (createSystemAlert tt c ''info'' d)))))) \<and>
      \<not> read (newAlert e (createSystemAlert tt c ''info'' d)) \<and>
      unreadCount (store (step e ap (Dispatch (ADD_ALERT (createSystemAlert tt c ''info'' d))))) =
        unreadCount (store ap) + 1)"
proof -
  have 1: "a \<in> set (visibleAlerts (notifyEffect t als pr)) \<longleftrightarrow>
      a \<in> set (visibleAlerts pr) \<or>
      (a \<in> set als \<and> \<not> read a \<and> alert_id a \<notin> alert_id ` set (visibleAlerts pr) \<and>
       (severity a = Some ''critical'' \<or> severity a = Some ''high'' \<or>
        alert_type a = Some ''phishing_detected''))"
    unfolding notifyEffect_visible set_append Un_iff newAlerts_iff ..
  have 2: "newAlerts als (visibleAlerts (notifyEffect t als pr)) = []"
    unfolding notifyEffect_visible by (rule newAlerts_again)
  have 6: "a \<notin> set (newAlerts als (visibleAlerts pr))"
    if "alert_id a \<in> alert_id ` set (visibleAlerts pr)"
    using that unfolding newAlerts_iff by blast
  have 3: "\<forall>v\<in>set (visibleAlerts (notifier (run (initialApp st) evs))).
      severity v = Some ''critical'' \<or> severity v = Some ''high'' \<or>
      alert_type v = Some ''phishing_detected''"
    using run_initialApp_promotable [of st evs] unfolding promotable_def .
  have 4: "a \<notin> set (visibleAlerts (notifier (run (initialApp st) evs)))"
    if "alert_type a = Some ''system_notification'' \<and> severity a = Some ''info''"
  proof
    assume "a \<in> set (visibleAlerts (notifier (run (initialApp st) evs)))"
    with 3 have "severity a = Some ''critical'' \<or> severity a = Some ''high'' \<or>
      alert_type a = Some ''phishing_detected''" by blast
    with that show False by simp
  qed
  let ?p = "createSystemAlert tt c ''info'' d"
  have 5: "newAlert e ?p \<in> set (alerts (store (step e ap (Dispatch (ADD_ALERT ?p))))) \<and>
      \<not> read (newAlert e ?p) \<and>
      unreadCount (store (step e ap (Dispatch (ADD_ALERT ?p)))) = unreadCount (store ap) + 1"
    if fresh: "existingAlert e (store ap) (newAlert e ?p) = None"
  proof -
    have "p_read ?p = None" by (simp add: createSystemAlert_def)
    then have "\<not> read (newAlert e ?p)" by (rule newAlert_keys_absent)
    moreover have "newAlert e ?p \<in> set (alerts (store (step e ap (Dispatch (ADD_ALERT ?p)))))"
      unfolding step_add_store add_stored_alerts [OF fresh] by simp
    moreover have "unreadCount (store (step e ap (Dispatch (ADD_ALERT ?p)))) = unreadCount (store ap) + 1"
      unfolding step_add_store add_stored [OF fresh] by simp
    ultimately show ?thesis by blast
  qed
  from 1 2 3 4 5 6 show ?thesis by blast
qed

theorem promotion_rule_witness:
  "unreadWarning \<in> set (visibleAlerts (notifyEffect 0 (alerts twoAlerts)
      \<lparr>visibleAlerts = [], timers = []\<rparr>)) \<and>
   oldNote \<notin> set (visibleAlerts (notifyEffect 0 (alerts twoAlerts)
      \<lparr>visibleAlerts = [], timers = []\<rparr>)) \<and>
   alert_id unreadWarning
     \<in> alert_id ` set (visibleAlerts \<lparr>visibleAlerts = [unreadWarning], timers = []\<rparr>) \<and>
   unreadWarning \<notin> set (newAlerts (alerts twoAlerts)
      (visibleAlerts \<lparr>visibleAlerts = [unreadWarning], timers = []\<rparr>)) \<and>
   alert_type (newAlert (atMs 0) scanCandidate) = Some ''system_notification'' \<and>
   severity (newAlert (atMs 0) scanCandidate) = Some ''info'' \<and>
   newAlert (atMs 0) scanCandidate \<notin> set (visibleAlerts (notifier
      (run (initialApp None) [(atMs 0, Dispatch (ADD_ALERT scanCandidate))]))) \<and>
   existingAlert (atMs 0) (store (initialApp None)) (newAlert (atMs 0) scanCandidate) = None \<and>
   newAlert (atMs 0) scanCandidate \<in> set (alerts (store
      (step (atMs 0) (initialApp None) (Dispatch (ADD_ALERT scanCandidate))))) \<and>
   unreadCount (store (step (atMs 0) (initialApp None) (Dispatch (ADD_ALERT scanCandidate)))) = 1"
proof -
  let ?pr = "\<lparr>visibleAlerts = [], timers = []\<rparr>"
  let ?n = "newAlert (atMs 0) scanCandidate"
  have u: "unreadWarning \<in> set (alerts twoAlerts) \<and> \<not> read unreadWarning \<and>
      alert_id unreadWarning \<notin> alert_id ` set (visibleAlerts ?pr) \<and>
      severity unreadWarning = Some ''high''"
    by (simp add: twoAlerts_def unreadWarning_def)
  have o: "oldNote \<notin> set (visibleAlerts ?pr) \<and> read oldNote"
    by (simp add: oldNote_def)
  have k: "alert_type ?n = Some ''system_notification''" "severity ?n = Some ''info''"
    by (simp_all add: newAlert_def scanCandidate_def createSystemAlert_def)
  have fresh: "existingAlert (atMs 0) (store (initialApp None)) ?n = None"
    by (simp add: existingAlert_None_iff initialApp_def initialState_def)
  have c: "unreadCount (store (initialApp None)) + 1 = 1"
    by (simp add: initialApp_def initialState_def)
  have sc: "scanCandidate = createSystemAlert ''Scan'' ''Scan finished'' ''info'' []"
    by (simp add: scanCandidate_def)
  from promotion_rule [of unreadWarning 0 "alerts twoAlerts" ?pr] u
  have 1: "unreadWarning \<in> set (visibleAlerts (notifyEffect 0 (alerts twoAlerts) ?pr))"
    by blast
  from promotion_rule [of oldNote 0 "alerts twoAlerts" ?pr] o
  have 2: "oldNote \<notin> set (visibleAlerts (notifyEffect 0 (alerts twoAlerts) ?pr))"
    by blast
  have v: "alert_id unreadWarning
      \<in> alert_id ` set (visibleAlerts \<lparr>visibleAlerts = [unreadWarning], timers = []\<rparr>)"
    by simp
  from promotion_rule [of unreadWarning 0 "alerts twoAlerts"
      "\<lparr>visibleAlerts = [unreadWarning], timers = []\<rparr>"] v
  have 5: "unreadWarning \<notin> set (newAlerts (alerts twoAlerts)
      (visibleAlerts \<lparr>visibleAlerts = [unreadWarning], timers = []\<rparr>))"
    by blast
  from promotion_rule [of ?n _ _ _ None "[(atMs 0, Dispatch (ADD_ALERT scanCandidate))]"] k
  have 3: "?n \<notin> set (visibleAlerts (notifier
      (run (initialApp None) [(atMs 0, Dispatch (ADD_ALERT scanCandidate))])))"
    by blast
  from promotion_rule [of _ _ _ _ _ _ "atMs 0" "initialApp None" "''Scan''" "''Scan finished''" "[]"]
    fresh [unfolded sc]
  have "newAlert (atMs 0) (createSystemAlert ''Scan'' ''Scan finished'' ''info'' []) \<in> set (alerts (store
      (step (atMs 0) (initialApp None)
        (Dispatch (ADD_ALERT (createSystemAlert ''Scan'' ''Scan finished'' ''info'' [])))))) \<and>
     unreadCount (store (step (atMs 0) (initialApp None)
        (Dispatch (ADD_ALERT (createSystemAlert ''Scan'' ''Scan finished'' ''info'' []))))) =
     unreadCount (store (initialApp None)) + 1"
    by blast
  then have 4: "?n \<in> set (alerts (store
      (step (atMs 0) (initialApp None) (Dispatch (ADD_ALERT scanCandidate))))) \<and>
     unreadCount (store (step (atMs 0) (initialApp None) (Dispatch (ADD_ALERT scanCandidate)))) = 1"
    unfolding sc [symmetric] c .
  from 1 2 3 4 5 v k fresh show ?thesis by blast
qed

section \<open>Automatic dismissal\<close>
































end
